theory Spec2Isabelle
  imports Complex_Main
begin

section \<open>Values of the request body\<close>

text \<open>
  The submit handler of \<^verbatim>\<open>src/routes/quizRoutes.js\<close> reads \<^verbatim>\<open>answers\<close> from a JSON
  request body, so a submitted answer can be any JSON value. A Number is a double:
  not-a-number, an infinity, or a finite value, kept as the rational it denotes (the two
  zeros are one value here; nothing below tells them apart). A string is a sequence of
  code units; a \<^typ>\<open>char\<close> stands for the UTF-16 code unit of the same number, so the
  strings of the model are those over the code units \<open>0x00\<close> to \<open>0xFF\<close>.
\<close>

datatype number = NaN | NegInfinity | Finite rat | PosInfinity

datatype jsval =
    JUndefined
  | JNull
  | JBoolean bool
  | JNumber number
  | JString string
  | JArray "jsval list"
  | JObject "(string \<times> jsval) list"

datatype error = TypeError

text \<open>What \<^verbatim>\<open>if (v)\<close> and \<^verbatim>\<open>v && ...\<close> test.\<close>

fun truthy :: "jsval \<Rightarrow> bool" where
  "truthy JUndefined = False"
| "truthy JNull = False"
| "truthy (JBoolean b) = b"
| "truthy (JNumber n) = (n \<noteq> NaN \<and> n \<noteq> Finite 0)"
| "truthy (JString s) = (s \<noteq> [])"
| "truthy (JArray xs) = True"
| "truthy (JObject kvs) = True"

text \<open>
  Reading \<^verbatim>\<open>a.questionId\<close> or \<^verbatim>\<open>a.userAnswer\<close>: a TypeError on \<^verbatim>\<open>null\<close> and
  \<^verbatim>\<open>undefined\<close>, the own property of a parsed object (its keys are distinct after
  parsing; the first binding of the association list is the object's), and
  \<^verbatim>\<open>undefined\<close> on every other value, since no prototype defines either name.
\<close>

fun getProperty :: "jsval \<Rightarrow> string \<Rightarrow> error + jsval" where
  "getProperty JUndefined k = Inl TypeError"
| "getProperty JNull k = Inl TypeError"
| "getProperty (JObject kvs) k = Inr (case map_of kvs k of None \<Rightarrow> JUndefined | Some v \<Rightarrow> v)"
| "getProperty (JBoolean b) k = Inr JUndefined"
| "getProperty (JNumber n) k = Inr JUndefined"
| "getProperty (JString s) k = Inr JUndefined"
| "getProperty (JArray xs) k = Inr JUndefined"

text \<open>
  \<^verbatim>\<open>String.prototype.toLowerCase\<close> on the code units of the model: the letters
  \<open>A\<close> to \<open>Z\<close> (\<open>0x41\<close> to \<open>0x5A\<close>) and the Latin-1 capitals \<open>0xC0\<close> to \<open>0xDE\<close>
  without the multiplication sign \<open>0xD7\<close> move up by \<open>0x20\<close>; every other code unit
  below \<open>0x100\<close> is its own lower case.
\<close>

definition isUpper :: "char \<Rightarrow> bool" where
  "isUpper c =
     (let n = (of_char c :: nat)
      in (65 \<le> n \<and> n \<le> 90) \<or> (192 \<le> n \<and> n \<le> 222 \<and> n \<noteq> 215))"

definition toLowerChar :: "char \<Rightarrow> char" where
  "toLowerChar c = (if isUpper c then char_of ((of_char c :: nat) + 32) else c)"

definition toLowerCase :: "string \<Rightarrow> string" where
  "toLowerCase s = map toLowerChar s"

text \<open>
  The method call \<^verbatim>\<open>v.toLowerCase()\<close> on a value: only a string has the method; on
  \<^verbatim>\<open>null\<close> and \<^verbatim>\<open>undefined\<close> the property read throws, on every other value the
  property is not a function and the call throws.
\<close>

fun callToLowerCase :: "jsval \<Rightarrow> error + string" where
  "callToLowerCase (JString s) = Inr (toLowerCase s)"
| "callToLowerCase JUndefined = Inl TypeError"
| "callToLowerCase JNull = Inl TypeError"
| "callToLowerCase (JBoolean b) = Inl TypeError"
| "callToLowerCase (JNumber n) = Inl TypeError"
| "callToLowerCase (JArray xs) = Inl TypeError"
| "callToLowerCase (JObject kvs) = Inl TypeError"

section \<open>Double arithmetic of the percentage\<close>

text \<open>
  \<^verbatim>\<open>(score / totalQuestions) * 100\<close> is computed in IEEE 754 doubles: each operation
  returns the exact result rounded to the nearest value with a 53-bit significand, ties to
  the even significand. The operands are a counter and an array length (below \<open>2^32\<close>),
  so no result leaves the normal range and the exponent is not bounded here.
\<close>

text \<open>The number of binary digits of a positive integer.\<close>

function bitlen :: "int \<Rightarrow> nat" where
  "bitlen n = (if n \<le> 0 then 0 else Suc (bitlen (n div 2)))"
  by pat_completeness auto
termination
  by (relation "measure nat") auto

declare bitlen.simps [simp del]

definition pow2 :: "int \<Rightarrow> rat" where
  "pow2 e = (if 0 \<le> e then 2 ^ nat e else 1 / 2 ^ nat (- e))"

text \<open>The exponent \<open>e\<close> of a positive rational: \<open>2^e \<le> x < 2^(e+1)\<close>.\<close>

definition exponent :: "rat \<Rightarrow> int" where
  "exponent x =
     (let (p, q) = quotient_of x;
          e0 = int (bitlen p) - int (bitlen q)
      in if pow2 e0 \<le> x then e0 else e0 - 1)"

definition roundHalfEven :: "rat \<Rightarrow> int" where
  "roundHalfEven m =
     (let f = \<lfloor>m\<rfloor>; r = m - of_int f
      in if r < 1 / 2 then f
         else if 1 / 2 < r then f + 1
         else if even f then f else f + 1)"

definition roundDouble :: "rat \<Rightarrow> rat" where
  "roundDouble x =
     (if x = 0 then 0
      else let u = pow2 (exponent \<bar>x\<bar> - 52)
           in of_int (roundHalfEven (x / u)) * u)"

text \<open>\<^verbatim>\<open>score / totalQuestions\<close>, both non-negative integers.\<close>

definition jsDivide :: "nat \<Rightarrow> nat \<Rightarrow> number" where
  "jsDivide s t =
     (if t = 0 then (if s = 0 then NaN else PosInfinity)
      else Finite (roundDouble (of_nat s / of_nat t)))"

text \<open>\<^verbatim>\<open>x * 100\<close>.\<close>

fun times100 :: "number \<Rightarrow> number" where
  "times100 NaN = NaN"
| "times100 PosInfinity = PosInfinity"
| "times100 NegInfinity = NegInfinity"
| "times100 (Finite x) = Finite (roundDouble (x * 100))"

text \<open>\<^verbatim>\<open>x >= y\<close> on Numbers: false as soon as one side is not a number.\<close>

fun greaterEq :: "number \<Rightarrow> number \<Rightarrow> bool" where
  "greaterEq NaN y = False"
| "greaterEq NegInfinity y = (y = NegInfinity)"
| "greaterEq (Finite x) y =
     (case y of NaN \<Rightarrow> False | NegInfinity \<Rightarrow> True | Finite z \<Rightarrow> z \<le> x | PosInfinity \<Rightarrow> False)"
| "greaterEq PosInfinity y = (y \<noteq> NaN)"

section \<open>Quizzes\<close>

text \<open>
  Modelled from the spec: the Mongoose schema \<^verbatim>\<open>models/Quiz.js\<close> that the handler
  requires is not among the sources. The fields the handler reads are typed as section 3
  of the specification gives them: an option is \<open>{text: string, isCorrect: boolean}\<close>, a
  question has a string \<open>id\<close>, a string \<open>type\<close>, a \<open>questionText\<close>, its \<open>options\<close>
  and a \<open>correctAnswer\<close> that may be unset, a quiz has its \<open>questions\<close> and a numeric
  \<open>passPercentage\<close>. Field names carry a prefix where two documents share a name.
\<close>

record choice =
  opt_text :: string
  opt_isCorrect :: bool

record question =
  q_id :: string
  q_type :: string
  q_questionText :: string
  q_options :: "choice list"
  q_correctAnswer :: "string option"

record quiz =
  questions :: "question list"
  passPercentage :: number

text \<open>One element of \<^verbatim>\<open>results\<close> (lines 159 to 165).\<close>

record entry =
  questionId :: string
  questionText :: string
  userAnswer :: jsval
  correctAnswer :: string
  isCorrect :: bool

section \<open>Grading one question\<close>

text \<open>
  \<^verbatim>\<open>answers.find(a => a.questionId === question.id)\<close>: the elements are visited in
  order and the first whose \<open>questionId\<close> is the question's id is returned; reading the
  property of a \<^verbatim>\<open>null\<close> element throws before any later element is seen.
\<close>

fun findAnswer :: "string \<Rightarrow> jsval list \<Rightarrow> error + jsval" where
  "findAnswer qid [] = Inr JUndefined"
| "findAnswer qid (a # as) =
     (case getProperty a ''questionId'' of
        Inl e \<Rightarrow> Inl e
      | Inr v \<Rightarrow> if v = JString qid then Inr a else findAnswer qid as)"

text \<open>
  Line 134: \<^verbatim>\<open>answers.find(...)?.userAnswer\<close>. Only an array has \<^verbatim>\<open>find\<close>; on any
  other value of \<^verbatim>\<open>answers\<close> the call throws.
\<close>

definition userAnswerOf :: "jsval \<Rightarrow> string \<Rightarrow> error + jsval" where
  "userAnswerOf answers qid =
     (case answers of
        JArray as \<Rightarrow>
          (case findAnswer qid as of
             Inl e \<Rightarrow> Inl e
           | Inr a \<Rightarrow> if a = JUndefined \<or> a = JNull then Inr JUndefined
                      else getProperty a ''userAnswer'')
      | _ \<Rightarrow> Inl TypeError)"

text \<open>
  Lines 135 to 154: the pair \<open>(isCorrect, correctAnswerText)\<close> that the type dispatch
  leaves in the two local variables.
\<close>

definition checkAnswer :: "question \<Rightarrow> jsval \<Rightarrow> error + (bool \<times> string)" where
  "checkAnswer question ua =
     (if q_type question = ''multiple-choice'' \<or> q_type question = ''true-false'' then
        (case find opt_isCorrect (q_options question) of
           None \<Rightarrow> Inr (False, '''')
         | Some correctOption \<Rightarrow>
             Inr (ua = JString (opt_text correctOption), opt_text correctOption))
      else if q_type question = ''short-answer'' then
        (case q_correctAnswer question of
           None \<Rightarrow> Inr (False, '''')
         | Some ca \<Rightarrow>
             if ca = [] then Inr (False, '''')
             else if \<not> truthy ua then Inr (False, ca)
             else (case callToLowerCase ua of
                     Inl e \<Rightarrow> Inl e
                   | Inr l \<Rightarrow> Inr (l = toLowerCase ca, ca)))
      else Inr (False, ''''))"

text \<open>The entry that the callback pushes for one question (lines 134 to 165).\<close>

definition gradeQuestion :: "question \<Rightarrow> jsval \<Rightarrow> error + entry" where
  "gradeQuestion question answers =
     (case userAnswerOf answers (q_id question) of
        Inl e \<Rightarrow> Inl e
      | Inr ua \<Rightarrow>
          (case checkAnswer question ua of
             Inl e \<Rightarrow> Inl e
           | Inr (ok, correctAnswerText) \<Rightarrow>
               Inr \<lparr> questionId = q_id question,
                     questionText = q_questionText question,
                     userAnswer = ua,
                     correctAnswer = correctAnswerText,
                     isCorrect = ok \<rparr>))"

section \<open>Grading a quiz\<close>

text \<open>
  The variables of the handler between lines 128 and 166: the fetched quiz and the
  submitted answers, which the loop only reads, and the two it assigns.
\<close>

record locals =
  the_quiz :: quiz
  the_answers :: jsval
  score :: nat
  results :: "entry list"

text \<open>The body of the \<^verbatim>\<open>forEach\<close> callback: an exception leaves the loop.\<close>

definition callback :: "question \<Rightarrow> locals \<Rightarrow> error + locals" where
  "callback question st =
     (case gradeQuestion question (the_answers st) of
        Inl e \<Rightarrow> Inl e
      | Inr r \<Rightarrow>
          Inr (st \<lparr> score := (if isCorrect r then score st + 1 else score st),
                    results := results st @ [r] \<rparr>))"

fun forEach :: "question list \<Rightarrow> locals \<Rightarrow> error + locals" where
  "forEach [] st = Inr st"
| "forEach (question # rest) st =
     (case callback question st of Inl e \<Rightarrow> Inl e | Inr st' \<Rightarrow> forEach rest st')"

text \<open>The body of the 200 response (lines 173 to 180), without its constant message.\<close>

record response =
  res_score :: nat
  res_totalQuestions :: nat
  res_percentage :: number
  res_passed :: bool
  res_results :: "entry list"

definition start :: "quiz \<Rightarrow> jsval \<Rightarrow> locals" where
  "start qz answers = \<lparr> the_quiz = qz, the_answers = answers, score = 0, results = [] \<rparr>"

definition respond :: "locals \<Rightarrow> response" where
  "respond st =
     (let totalQuestions = length (questions (the_quiz st));
          percentage = times100 (jsDivide (score st) totalQuestions);
          passed = greaterEq percentage (passPercentage (the_quiz st))
      in \<lparr> res_score = score st,
            res_totalQuestions = totalQuestions,
            res_percentage = percentage,
            res_passed = passed,
            res_results = results st \<rparr>)"

text \<open>Lines 128 to 180; \<open>Inl\<close> is the exception that the handler turns into a 500.\<close>

definition grade :: "quiz \<Rightarrow> jsval \<Rightarrow> error + response" where
  "grade qz answers =
     (case forEach (questions qz) (start qz answers) of
        Inl e \<Rightarrow> Inl e
      | Inr st \<Rightarrow> Inr (respond st))"

section \<open>Submissions\<close>

text \<open>
  Modelled from the spec: the SubmittedAnswer of section 3, which the handler never
  checks. A submission is an array of objects, each with a string \<open>questionId\<close> and a
  string \<open>userAnswer\<close>.
\<close>

fun isString :: "jsval \<Rightarrow> bool" where
  "isString (JString s) = True"
| "isString JUndefined = False"
| "isString JNull = False"
| "isString (JBoolean b) = False"
| "isString (JNumber n) = False"
| "isString (JArray xs) = False"
| "isString (JObject kvs) = False"

fun isSubmittedAnswer :: "jsval \<Rightarrow> bool" where
  "isSubmittedAnswer (JObject kvs) =
     ((case map_of kvs ''questionId'' of None \<Rightarrow> False | Some v \<Rightarrow> isString v) \<and>
      (case map_of kvs ''userAnswer'' of None \<Rightarrow> False | Some v \<Rightarrow> isString v))"
| "isSubmittedAnswer JUndefined = False"
| "isSubmittedAnswer JNull = False"
| "isSubmittedAnswer (JBoolean b) = False"
| "isSubmittedAnswer (JNumber n) = False"
| "isSubmittedAnswer (JString s) = False"
| "isSubmittedAnswer (JArray xs) = False"

fun isSubmission :: "jsval \<Rightarrow> bool" where
  "isSubmission (JArray as) = list_all isSubmittedAnswer as"
| "isSubmission JUndefined = False"
| "isSubmission JNull = False"
| "isSubmission (JBoolean b) = False"
| "isSubmission (JNumber n) = False"
| "isSubmission (JString s) = False"
| "isSubmission (JObject kvs) = False"

text \<open>The object \<open>{questionId: i, userAnswer: u}\<close>.\<close>

definition answer :: "string \<Rightarrow> jsval \<Rightarrow> jsval" where
  "answer i u = JObject [(''questionId'', JString i), (''userAnswer'', u)]"

section \<open>Sample quizzes\<close>

text \<open>
  Questions after the scenarios of section 8 of the specification. The first has two
  options marked correct, the second none.
\<close>

definition capital :: question where
  "capital =
     \<lparr> q_id = ''q1'', q_type = ''multiple-choice'', q_questionText = ''Capital of France?'',
       q_options = [\<lparr> opt_text = ''Lyon'', opt_isCorrect = False \<rparr>,
                    \<lparr> opt_text = ''Paris'', opt_isCorrect = True \<rparr>,
                    \<lparr> opt_text = ''Nice'', opt_isCorrect = True \<rparr>],
       q_correctAnswer = None \<rparr>"

definition unmarked :: question where
  "unmarked = capital \<lparr> q_id := ''q0'',
       q_options := [\<lparr> opt_text = ''Lyon'', opt_isCorrect = False \<rparr>] \<rparr>"

definition river :: question where
  "river =
     \<lparr> q_id = ''q2'', q_type = ''short-answer'', q_questionText = ''River of Paris?'',
       q_options = [], q_correctAnswer = Some ''Seine'' \<rparr>"

definition essay :: question where
  "essay =
     \<lparr> q_id = ''q3'', q_type = ''essay'', q_questionText = ''Describe Paris.'',
       q_options = [], q_correctAnswer = Some ''anything'' \<rparr>"

definition twoQuestions :: quiz where
  "twoQuestions = \<lparr> questions = [capital, river], passPercentage = Finite 60 \<rparr>"

definition noQuestions :: quiz where
  "noQuestions = \<lparr> questions = [], passPercentage = Finite 60 \<rparr>"

definition halfMark :: quiz where
  "halfMark = \<lparr> questions = [capital, river], passPercentage = Finite 50 \<rparr>"

text \<open>
  Forty true-false questions, the one of number \<open>k\<close> with the character of code
  \<open>48 + k\<close> as its id (\<open>0\<close>, \<open>1\<close>, \<open>2\<close> and so on), a pass mark of 57.5, and the submission that answers the first \<open>n\<close> of them correctly and leaves the
  others out.
\<close>

definition numbered :: "nat \<Rightarrow> question" where
  "numbered k =
     \<lparr> q_id = [char_of (48 + k)], q_type = ''true-false'',
       q_questionText = ''True or false?'',
       q_options = [\<lparr> opt_text = ''true'', opt_isCorrect = True \<rparr>,
                    \<lparr> opt_text = ''false'', opt_isCorrect = False \<rparr>],
       q_correctAnswer = None \<rparr>"

definition fortyQuestions :: quiz where
  "fortyQuestions = \<lparr> questions = map numbered [0..<40], passPercentage = Finite (115 / 2) \<rparr>"

definition firstAnswered :: "nat \<Rightarrow> jsval" where
  "firstAnswered n =
     JArray (map (\<lambda>k. answer ([char_of (48 + k)]) (JString ''true'')) [0..<n])"

text \<open>What the handler returns for 23 of the forty.\<close>

definition fortyGraded :: response where
  "fortyGraded =
     \<lparr> res_score = 23, res_totalQuestions = 40,
       res_percentage = Finite (115 / 2 - 1 / 2 ^ 47), res_passed = False,
       res_results =
         map (\<lambda>k. \<lparr> questionId = [char_of (48 + k)],
                     questionText = ''True or false?'',
                     userAnswer = (if k < 23 then JString ''true'' else JUndefined),
                     correctAnswer = ''true'', isCorrect = (k < 23) \<rparr>) [0..<40] \<rparr>"

section \<open>The loop\<close>

lemma callback_frame:
  "callback q st = Inr st' \<Longrightarrow> the_quiz st' = the_quiz st \<and> the_answers st' = the_answers st"
  by (auto simp: callback_def split: sum.splits)

lemma forEach_frame:
  "forEach qs st = Inr st' \<Longrightarrow> the_quiz st' = the_quiz st \<and> the_answers st' = the_answers st"
proof (induction qs arbitrary: st)
  case Nil
  then show ?case by simp
next
  case (Cons q qs)
  then obtain st1 where 1: "callback q st = Inr st1" and 2: "forEach qs st1 = Inr st'"
    by (auto split: sum.splits)
  from Cons.IH[OF 2] callback_frame[OF 1] show ?case by simp
qed

lemma gradeQuestion_fields:
  "gradeQuestion q answers = Inr r \<Longrightarrow> questionId r = q_id q \<and> questionText r = q_questionText q"
  by (auto simp: gradeQuestion_def split: sum.splits prod.splits)

lemma callback_results:
  assumes "callback q st = Inr st'"
  shows "\<exists>r. gradeQuestion q (the_answers st) = Inr r \<and> results st' = results st @ [r]
             \<and> score st' = score st + (if isCorrect r then 1 else 0)"
  using assms by (auto simp: callback_def split: sum.splits)

lemma forEach_results:
  "forEach qs st = Inr st' \<Longrightarrow>
     \<exists>es. results st' = results st @ es \<and> length es = length qs
        \<and> map questionId es = map q_id qs \<and> map questionText es = map q_questionText qs
        \<and> score st' = score st + length (filter isCorrect es)"
proof (induction qs arbitrary: st)
  case Nil
  then show ?case by simp
next
  case (Cons q qs)
  then obtain st1 where 1: "callback q st = Inr st1" and 2: "forEach qs st1 = Inr st'"
    by (auto split: sum.splits)
  from callback_results[OF 1] obtain r where r: "gradeQuestion q (the_answers st) = Inr r"
    "results st1 = results st @ [r]" "score st1 = score st + (if isCorrect r then 1 else 0)"
    by blast
  from Cons.IH[OF 2] obtain es where es: "results st' = results st1 @ es" "length es = length qs"
    "map questionId es = map q_id qs" "map questionText es = map q_questionText qs"
    "score st' = score st1 + length (filter isCorrect es)"
    by blast
  have "results st' = results st @ (r # es)" using r es by simp
  moreover have "length (r # es) = length (q # qs)" using es by simp
  moreover have "map questionId (r # es) = map q_id (q # qs)"
    using es gradeQuestion_fields[OF r(1)] by simp
  moreover have "map questionText (r # es) = map q_questionText (q # qs)"
    using es gradeQuestion_fields[OF r(1)] by simp
  moreover have "score st' = score st + length (filter isCorrect (r # es))"
    using r es by simp
  ultimately show ?case by blast
qed

lemma findAnswer_submission:
  "list_all isSubmittedAnswer as \<Longrightarrow>
     findAnswer qid as = Inr JUndefined \<or> (\<exists>a. findAnswer qid as = Inr a \<and> isSubmittedAnswer a)"
proof (induction as)
  case Nil
  then show ?case by simp
next
  case (Cons a as)
  then obtain kvs where "a = JObject kvs" by (cases a) auto
  with Cons show ?case by auto
qed

lemma userAnswerOf_submission:
  assumes "isSubmission answers"
  shows "\<exists>ua. userAnswerOf answers qid = Inr ua \<and> (ua = JUndefined \<or> isString ua)"
proof -
  from assms obtain as where as: "answers = JArray as" "list_all isSubmittedAnswer as"
    by (cases answers) auto
  from findAnswer_submission[OF as(2), of qid] show ?thesis
  proof
    assume "findAnswer qid as = Inr JUndefined"
    then show ?thesis by (simp add: userAnswerOf_def as)
  next
    assume "\<exists>a. findAnswer qid as = Inr a \<and> isSubmittedAnswer a"
    then obtain a where a: "findAnswer qid as = Inr a" "isSubmittedAnswer a" by blast
    then obtain kvs where k: "a = JObject kvs" by (cases a) auto
    with a show ?thesis
      by (auto simp: userAnswerOf_def as split: option.splits)
  qed
qed

lemma checkAnswer_returns:
  assumes "ua = JUndefined \<or> isString ua"
  shows "\<exists>r. checkAnswer q ua = Inr r"
proof -
  from assms have "\<not> truthy ua \<or> (\<exists>s. ua = JString s)" by (cases ua) auto
  then show ?thesis
    by (auto simp: checkAnswer_def split: option.splits)
qed

lemma gradeQuestion_returns:
  assumes "isSubmission answers"
  shows "\<exists>r. gradeQuestion q answers = Inr r"
proof -
  from userAnswerOf_submission[OF assms, of "q_id q"] obtain ua
    where ua: "userAnswerOf answers (q_id q) = Inr ua" "ua = JUndefined \<or> isString ua" by blast
  from checkAnswer_returns[OF ua(2), of q] obtain ok t where "checkAnswer q ua = Inr (ok, t)"
    by (cases "checkAnswer q ua") auto
  with ua show ?thesis by (simp add: gradeQuestion_def)
qed

lemma forEach_returns:
  "isSubmission (the_answers st) \<Longrightarrow> \<exists>st'. forEach qs st = Inr st'"
proof (induction qs arbitrary: st)
  case Nil
  then show ?case by simp
next
  case (Cons q qs)
  from gradeQuestion_returns[OF Cons.prems, of q] obtain r
    where r: "gradeQuestion q (the_answers st) = Inr r" by blast
  then obtain st1 where 1: "callback q st = Inr st1" by (simp add: callback_def)
  from callback_frame[OF 1] Cons.prems have "isSubmission (the_answers st1)" by simp
  from Cons.IH[OF this] 1 show ?case by simp
qed

lemma grade_returns: "isSubmission answers \<Longrightarrow> \<exists>r. grade qz answers = Inr r"
  using forEach_returns[of "start qz answers" "questions qz"]
  by (auto simp: grade_def start_def)

lemma grade_unfold:
  assumes "grade qz answers = Inr r"
  shows "\<exists>st. forEach (questions qz) (start qz answers) = Inr st \<and> r = respond st"
  using assms by (auto simp: grade_def split: sum.splits)


section \<open>Grading by question type\<close>

lemma find_first:
  "\<forall>x\<in>set pre. \<not> P x \<Longrightarrow> P c \<Longrightarrow> find P (pre @ c # post) = Some c"
  by (induction pre) auto

lemma find_none: "\<forall>x\<in>set xs. \<not> P x \<Longrightarrow> find P xs = None"
  by (simp add: find_None_iff)

text \<open>
  Claim C1. A multiple-choice or true-false question is graded against its first option
  marked correct: the entry reports that option's text, and the question is correct
  exactly when the submitted value is that very string (equality of strings is equality
  of their code units, so a difference of case is a difference). With no option marked
  correct the question is incorrect whatever is submitted, and the reported text is empty.
\<close>

theorem choice_question_graded_by_first_correct_option:
  assumes "q_type q = ''multiple-choice'' \<or> q_type q = ''true-false''"
    and "userAnswerOf answers (q_id q) = Inr ua"
  shows "(q_options q = pre @ c # post \<and> (\<forall>x\<in>set pre. \<not> opt_isCorrect x) \<and> opt_isCorrect c \<longrightarrow>
            gradeQuestion q answers =
              Inr \<lparr> questionId = q_id q, questionText = q_questionText q, userAnswer = ua,
                    correctAnswer = opt_text c, isCorrect = (ua = JString (opt_text c)) \<rparr>)
       \<and> ((\<forall>x\<in>set (q_options q). \<not> opt_isCorrect x) \<longrightarrow>
            gradeQuestion q answers =
              Inr \<lparr> questionId = q_id q, questionText = q_questionText q, userAnswer = ua,
                    correctAnswer = '''', isCorrect = False \<rparr>)"
proof (intro conjI impI)
  assume "q_options q = pre @ c # post \<and> (\<forall>x\<in>set pre. \<not> opt_isCorrect x) \<and> opt_isCorrect c"
  then have "find opt_isCorrect (q_options q) = Some c" by (simp add: find_first)
  with assms show "gradeQuestion q answers =
      Inr \<lparr> questionId = q_id q, questionText = q_questionText q, userAnswer = ua,
            correctAnswer = opt_text c, isCorrect = (ua = JString (opt_text c)) \<rparr>"
    by (auto simp: gradeQuestion_def checkAnswer_def)
next
  assume "\<forall>x\<in>set (q_options q). \<not> opt_isCorrect x"
  then have "find opt_isCorrect (q_options q) = None" by (rule find_none)
  with assms show "gradeQuestion q answers =
      Inr \<lparr> questionId = q_id q, questionText = q_questionText q, userAnswer = ua,
            correctAnswer = '''', isCorrect = False \<rparr>"
    by (auto simp: gradeQuestion_def checkAnswer_def)
qed

theorem choice_question_graded_by_first_correct_option_witness:
  "gradeQuestion capital (JArray [answer ''q1'' (JString ''Paris'')]) =
     Inr \<lparr> questionId = ''q1'', questionText = ''Capital of France?'',
           userAnswer = JString ''Paris'', correctAnswer = ''Paris'', isCorrect = True \<rparr>
   \<and> gradeQuestion capital (JArray [answer ''q1'' (JString ''paris'')]) =
     Inr \<lparr> questionId = ''q1'', questionText = ''Capital of France?'',
           userAnswer = JString ''paris'', correctAnswer = ''Paris'', isCorrect = False \<rparr>
   \<and> gradeQuestion capital (JArray [answer ''q1'' (JString ''Nice'')]) =
     Inr \<lparr> questionId = ''q1'', questionText = ''Capital of France?'',
           userAnswer = JString ''Nice'', correctAnswer = ''Paris'', isCorrect = False \<rparr>
   \<and> gradeQuestion unmarked (JArray [answer ''q0'' (JString ''Lyon'')]) =
     Inr \<lparr> questionId = ''q0'', questionText = ''Capital of France?'',
           userAnswer = JString ''Lyon'', correctAnswer = '''', isCorrect = False \<rparr>"
  using choice_question_graded_by_first_correct_option
      [of capital "JArray [answer ''q1'' (JString ''Nice'')]" "JString ''Nice''"
          "[\<lparr> opt_text = ''Lyon'', opt_isCorrect = False \<rparr>]"
          "\<lparr> opt_text = ''Paris'', opt_isCorrect = True \<rparr>"
          "[\<lparr> opt_text = ''Nice'', opt_isCorrect = True \<rparr>]"]
    choice_question_graded_by_first_correct_option
      [of capital "JArray [answer ''q1'' (JString ''Paris'')]" "JString ''Paris''"
          "[\<lparr> opt_text = ''Lyon'', opt_isCorrect = False \<rparr>]"
          "\<lparr> opt_text = ''Paris'', opt_isCorrect = True \<rparr>"
          "[\<lparr> opt_text = ''Nice'', opt_isCorrect = True \<rparr>]"]
    choice_question_graded_by_first_correct_option
      [of capital "JArray [answer ''q1'' (JString ''paris'')]" "JString ''paris''"
          "[\<lparr> opt_text = ''Lyon'', opt_isCorrect = False \<rparr>]"
          "\<lparr> opt_text = ''Paris'', opt_isCorrect = True \<rparr>"
          "[\<lparr> opt_text = ''Nice'', opt_isCorrect = True \<rparr>]"]
    choice_question_graded_by_first_correct_option
      [of unmarked "JArray [answer ''q0'' (JString ''Lyon'')]" "JString ''Lyon''"]
  by (simp add: capital_def unmarked_def userAnswerOf_def answer_def)

lemma checkAnswer_short_answer:
  assumes "q_type q = ''short-answer''" and "q_correctAnswer q = Some ca" and "ca \<noteq> []"
  shows "checkAnswer q (JString s) = Inr (s \<noteq> [] \<and> toLowerCase s = toLowerCase ca, ca)"
    and "\<not> truthy ua \<Longrightarrow> checkAnswer q ua = Inr (False, ca)"
    and "truthy ua \<Longrightarrow> \<not> isString ua \<Longrightarrow> checkAnswer q ua = Inl TypeError"
  using assms by (cases ua; auto simp: checkAnswer_def)+

lemma checkAnswer_short_answer_unset:
  assumes "q_type q = ''short-answer''" and "q_correctAnswer q = None \<or> q_correctAnswer q = Some []"
  shows "checkAnswer q ua = Inr (False, '''')"
  using assms by (auto simp: checkAnswer_def)

text \<open>
  Claim C2. A short-answer question whose \<open>correctAnswer\<close> is set (a non-empty string) is
  graded correct exactly when the submitted value is a non-empty string whose lower-case
  form is the lower-case form of \<open>correctAnswer\<close>; the two strings are compared whole,
  nothing is trimmed. An absent or string answer is always graded, and reported against
  \<open>correctAnswer\<close>. With \<open>correctAnswer\<close> unset the question is incorrect
  whatever is submitted.
\<close>

theorem short_answer_graded_by_lowercase_match:
  assumes "q_type q = ''short-answer''"
    and "userAnswerOf answers (q_id q) = Inr ua"
  shows "(q_correctAnswer q = Some ca \<and> ca \<noteq> [] \<longrightarrow>
            ((\<exists>r. gradeQuestion q answers = Inr r \<and> isCorrect r) \<longleftrightarrow>
               (\<exists>s. ua = JString s \<and> s \<noteq> [] \<and> toLowerCase s = toLowerCase ca))
          \<and> (ua = JUndefined \<or> isString ua \<longrightarrow>
               (\<exists>r. gradeQuestion q answers = Inr r \<and> correctAnswer r = ca)))
       \<and> (q_correctAnswer q = None \<longrightarrow>
            gradeQuestion q answers =
              Inr \<lparr> questionId = q_id q, questionText = q_questionText q, userAnswer = ua,
                    correctAnswer = '''', isCorrect = False \<rparr>)"
proof (intro conjI impI)
  assume ca: "q_correctAnswer q = Some ca \<and> ca \<noteq> []"
  show "(\<exists>r. gradeQuestion q answers = Inr r \<and> isCorrect r) \<longleftrightarrow>
          (\<exists>s. ua = JString s \<and> s \<noteq> [] \<and> toLowerCase s = toLowerCase ca)"
  proof (cases "isString ua")
    case True
    then obtain s where "ua = JString s" by (cases ua) auto
    with assms ca checkAnswer_short_answer(1)[of q ca s] show ?thesis
      by (auto simp: gradeQuestion_def)
  next
    case False
    then have ns: "\<nexists>s. ua = JString s" by auto
    show ?thesis
    proof (cases "truthy ua")
      case True
      with False assms ca checkAnswer_short_answer(3)[of q ca ua] ns show ?thesis
        by (auto simp: gradeQuestion_def)
    next
      case f: False
      with assms ca checkAnswer_short_answer(2)[of q ca ua] ns show ?thesis
        by (auto simp: gradeQuestion_def)
    qed
  qed
next
  assume ca: "q_correctAnswer q = Some ca \<and> ca \<noteq> []" and ua: "ua = JUndefined \<or> isString ua"
  from ua show "\<exists>r. gradeQuestion q answers = Inr r \<and> correctAnswer r = ca"
  proof
    assume "ua = JUndefined"
    with assms ca checkAnswer_short_answer(2)[of q ca ua] show ?thesis
      by (auto simp: gradeQuestion_def)
  next
    assume "isString ua"
    then obtain s where "ua = JString s" by (cases ua) auto
    with assms ca checkAnswer_short_answer(1)[of q ca s] show ?thesis
      by (auto simp: gradeQuestion_def)
  qed
next
  assume "q_correctAnswer q = None"
  with assms checkAnswer_short_answer_unset[of q ua]
  show "gradeQuestion q answers =
          Inr \<lparr> questionId = q_id q, questionText = q_questionText q, userAnswer = ua,
                correctAnswer = '''', isCorrect = False \<rparr>"
    by (simp add: gradeQuestion_def)
qed

lemma toLowerCase_samples:
  "toLowerCase ''SEINE'' = ''seine'' \<and> toLowerCase ''Seine'' = ''seine''
   \<and> toLowerCase '' seine'' = '' seine''"
  by code_simp

theorem short_answer_graded_by_lowercase_match_witness:
  "(\<exists>r. gradeQuestion river (JArray [answer ''q2'' (JString ''SEINE'')]) = Inr r \<and> isCorrect r)
   \<and> \<not> (\<exists>r. gradeQuestion river (JArray [answer ''q2'' (JString '' seine'')]) = Inr r \<and> isCorrect r)
   \<and> (\<exists>r. gradeQuestion river (JArray [answer ''q2'' (JString '' seine'')]) = Inr r
            \<and> correctAnswer r = ''Seine'')
   \<and> gradeQuestion (river \<lparr> q_correctAnswer := None \<rparr>) (JArray [answer ''q2'' (JString ''Seine'')]) =
       Inr \<lparr> questionId = ''q2'', questionText = ''River of Paris?'',
             userAnswer = JString ''Seine'', correctAnswer = '''', isCorrect = False \<rparr>"
  using short_answer_graded_by_lowercase_match
      [of river "JArray [answer ''q2'' (JString ''SEINE'')]" "JString ''SEINE''" "''Seine''"]
    short_answer_graded_by_lowercase_match
      [of river "JArray [answer ''q2'' (JString '' seine'')]" "JString '' seine''" "''Seine''"]
    short_answer_graded_by_lowercase_match
      [of "river \<lparr> q_correctAnswer := None \<rparr>" "JArray [answer ''q2'' (JString ''Seine'')]"
          "JString ''Seine''"]
  by (simp add: river_def userAnswerOf_def answer_def toLowerCase_samples)

text \<open>
  Claim C10. For a short-answer question the empty string counts as absent: with the empty
  string as \<open>correctAnswer\<close> the question is incorrect for every submitted value, the
  empty string included, and an empty submitted string is incorrect whatever
  \<open>correctAnswer\<close> is.
\<close>

theorem short_answer_empty_string_is_absent:
  assumes "q_type q = ''short-answer''"
    and "userAnswerOf answers (q_id q) = Inr ua"
  shows "(q_correctAnswer q = Some '''' \<longrightarrow>
            gradeQuestion q answers =
              Inr \<lparr> questionId = q_id q, questionText = q_questionText q, userAnswer = ua,
                    correctAnswer = '''', isCorrect = False \<rparr>)
       \<and> (ua = JString '''' \<longrightarrow>
            (\<exists>r. gradeQuestion q answers = Inr r \<and> \<not> isCorrect r))"
proof (intro conjI impI)
  assume "q_correctAnswer q = Some ''''"
  with assms checkAnswer_short_answer_unset[of q ua]
  show "gradeQuestion q answers =
          Inr \<lparr> questionId = q_id q, questionText = q_questionText q, userAnswer = ua,
                correctAnswer = '''', isCorrect = False \<rparr>"
    by (simp add: gradeQuestion_def)
next
  assume "ua = JString ''''"
  with assms show "\<exists>r. gradeQuestion q answers = Inr r \<and> \<not> isCorrect r"
    by (auto simp: gradeQuestion_def checkAnswer_def split: option.splits)
qed

theorem short_answer_empty_string_is_absent_witness:
  "gradeQuestion (river \<lparr> q_correctAnswer := Some '''' \<rparr>) (JArray [answer ''q2'' (JString '''')]) =
     Inr \<lparr> questionId = ''q2'', questionText = ''River of Paris?'',
           userAnswer = JString '''', correctAnswer = '''', isCorrect = False \<rparr>
   \<and> (\<exists>r. gradeQuestion river (JArray [answer ''q2'' (JString '''')]) = Inr r \<and> \<not> isCorrect r)"
  using short_answer_empty_string_is_absent
      [of "river \<lparr> q_correctAnswer := Some '''' \<rparr>" "JArray [answer ''q2'' (JString '''')]"
          "JString ''''"]
    short_answer_empty_string_is_absent
      [of river "JArray [answer ''q2'' (JString '''')]" "JString ''''"]
  by (simp add: river_def userAnswerOf_def answer_def)

text \<open>
  Claim C7. A question of any other type is incorrect whatever is submitted, with the empty
  text as its reported correct answer; no branch of the dispatch runs, so nothing can
  throw once the answer has been looked up, and the lookup succeeds on every submission.
\<close>

theorem unknown_type_graded_incorrect:
  assumes "q_type q \<noteq> ''multiple-choice''" and "q_type q \<noteq> ''true-false''"
    and "q_type q \<noteq> ''short-answer''"
  shows "(userAnswerOf answers (q_id q) = Inr ua \<longrightarrow>
            gradeQuestion q answers =
              Inr \<lparr> questionId = q_id q, questionText = q_questionText q, userAnswer = ua,
                    correctAnswer = '''', isCorrect = False \<rparr>)
       \<and> (isSubmission answers \<longrightarrow> (\<exists>v. userAnswerOf answers (q_id q) = Inr v))"
  using assms userAnswerOf_submission[of answers "q_id q"]
  by (auto simp: gradeQuestion_def checkAnswer_def)

theorem unknown_type_graded_incorrect_witness:
  "gradeQuestion essay (JArray [answer ''q3'' (JString ''anything'')]) =
     Inr \<lparr> questionId = ''q3'', questionText = ''Describe Paris.'',
           userAnswer = JString ''anything'', correctAnswer = '''', isCorrect = False \<rparr>
   \<and> isSubmission (JArray [answer ''q3'' (JString ''anything'')])"
  using unknown_type_graded_incorrect
      [of essay "JArray [answer ''q3'' (JString ''anything'')]" "JString ''anything''"]
  by (simp add: essay_def userAnswerOf_def answer_def)

section \<open>Looking up the submitted answer\<close>

lemma findAnswer_no_match:
  "\<forall>a\<in>set as. \<exists>v. getProperty a ''questionId'' = Inr v \<and> v \<noteq> JString qid \<Longrightarrow>
     findAnswer qid as = Inr JUndefined"
  by (induction as) auto

lemma findAnswer_first_match:
  "\<forall>a\<in>set pre. \<exists>v. getProperty a ''questionId'' = Inr v \<and> v \<noteq> JString qid \<Longrightarrow>
     getProperty a ''questionId'' = Inr (JString qid) \<Longrightarrow>
     findAnswer qid (pre @ a # post) = Inr a"
  by (induction pre) auto

lemma checkAnswer_undefined: "\<exists>t. checkAnswer q JUndefined = Inr (False, t)"
  by (auto simp: checkAnswer_def split: option.splits)

text \<open>
  Claim C6. A question whose id is the \<open>questionId\<close> of no submitted answer is graded,
  without an exception, as incorrect, with \<^verbatim>\<open>undefined\<close> as the user's answer. When
  several submitted answers carry the question's id, the \<open>userAnswer\<close> of the first of
  them in the array is the one graded and reported.
\<close>

theorem missing_answer_incorrect_and_first_answer_wins:
  "((\<forall>a\<in>set as. \<exists>v. getProperty a ''questionId'' = Inr v \<and> v \<noteq> JString (q_id q)) \<longrightarrow>
      (\<exists>r. gradeQuestion q (JArray as) = Inr r \<and> userAnswer r = JUndefined \<and> \<not> isCorrect r))
   \<and> ((\<forall>a\<in>set pre. \<exists>v. getProperty a ''questionId'' = Inr v \<and> v \<noteq> JString (q_id q))
        \<and> getProperty b ''questionId'' = Inr (JString (q_id q)) \<longrightarrow>
      userAnswerOf (JArray (pre @ b # post)) (q_id q) = getProperty b ''userAnswer''
      \<and> (\<forall>r. gradeQuestion q (JArray (pre @ b # post)) = Inr r \<longrightarrow>
             getProperty b ''userAnswer'' = Inr (userAnswer r)))"
proof -
  have missing: "\<exists>r. gradeQuestion q (JArray as) = Inr r \<and> userAnswer r = JUndefined
      \<and> \<not> isCorrect r"
    if "\<forall>a\<in>set as. \<exists>v. getProperty a ''questionId'' = Inr v \<and> v \<noteq> JString (q_id q)"
  proof -
    from that have "findAnswer (q_id q) as = Inr JUndefined" by (rule findAnswer_no_match)
    then have "userAnswerOf (JArray as) (q_id q) = Inr JUndefined"
      by (simp add: userAnswerOf_def)
    moreover obtain t where "checkAnswer q JUndefined = Inr (False, t)"
      using checkAnswer_undefined by blast
    ultimately show ?thesis by (simp add: gradeQuestion_def)
  qed
  have first: "userAnswerOf (JArray (pre @ b # post)) (q_id q) = getProperty b ''userAnswer''
      \<and> (\<forall>r. gradeQuestion q (JArray (pre @ b # post)) = Inr r \<longrightarrow>
             getProperty b ''userAnswer'' = Inr (userAnswer r))"
    if h: "(\<forall>a\<in>set pre. \<exists>v. getProperty a ''questionId'' = Inr v \<and> v \<noteq> JString (q_id q))
       \<and> getProperty b ''questionId'' = Inr (JString (q_id q))"
  proof -
    from h have f: "findAnswer (q_id q) (pre @ b # post) = Inr b"
      by (simp add: findAnswer_first_match)
    from h have "b \<noteq> JUndefined" "b \<noteq> JNull" by auto
    with f have "userAnswerOf (JArray (pre @ b # post)) (q_id q) = getProperty b ''userAnswer''"
      by (simp add: userAnswerOf_def)
    then show ?thesis
      by (auto simp: gradeQuestion_def split: sum.splits prod.splits)
  qed
  from missing first show ?thesis by blast
qed

theorem missing_answer_incorrect_and_first_answer_wins_witness:
  "(\<exists>r. gradeQuestion capital (JArray [answer ''q2'' (JString ''Paris'')]) = Inr r
        \<and> userAnswer r = JUndefined \<and> \<not> isCorrect r)
   \<and> userAnswerOf (JArray [answer ''q2'' (JString ''Seine''), answer ''q1'' (JString ''Lyon''),
                            answer ''q1'' (JString ''Paris'')]) ''q1'' = Inr (JString ''Lyon'')"
  using missing_answer_incorrect_and_first_answer_wins
      [of "[answer ''q2'' (JString ''Paris'')]" capital "[]" "answer ''q1'' (JString ''Lyon'')" "[]"]
    missing_answer_incorrect_and_first_answer_wins
      [of "[]" capital "[answer ''q2'' (JString ''Seine'')]" "answer ''q1'' (JString ''Lyon'')"
          "[answer ''q1'' (JString ''Paris'')]"]
  by (simp add: capital_def answer_def)

section \<open>Rounding\<close>

lemma pow2_powi: "pow2 e = 2 powi e"
  by (simp add: pow2_def power_int_def inverse_eq_divide power_one_over)

lemma pow2_pos: "0 < pow2 e"
  by (simp add: pow2_powi zero_less_power_int)

lemma pow2_add: "pow2 (a + b) = pow2 a * pow2 b"
  by (simp add: pow2_powi power_int_add)

lemma pow2_mono: "a \<le> b \<Longrightarrow> pow2 a \<le> pow2 b"
  by (simp add: pow2_powi power_int_increasing)

lemma pow2_less_imp: "pow2 a < pow2 b \<Longrightarrow> a < b"
  using pow2_mono[of b a] by (cases "a < b") auto

lemma pow2_nat: "pow2 (int n) = 2 ^ n"
  by (simp add: pow2_def)

lemma bitlen_bounds: "0 < n \<Longrightarrow> 2 ^ (bitlen n - 1) \<le> n \<and> n < 2 ^ bitlen n"
proof (induction n rule: bitlen.induct)
  case (1 n)
  show ?case
  proof (cases "n div 2 = 0")
    case True
    with "1.prems" have "n = 1" by linarith
    then show ?thesis by (simp add: bitlen.simps)
  next
    case False
    with "1.prems" have pos: "0 < n div 2" by linarith
    with "1.IH" "1.prems" have ih: "2 ^ (bitlen (n div 2) - 1) \<le> n div 2" "n div 2 < 2 ^ bitlen (n div 2)"
      by auto
    have b: "bitlen n = Suc (bitlen (n div 2))" using "1.prems" by (subst bitlen.simps) simp
    have "0 < bitlen (n div 2)" using pos by (subst bitlen.simps) simp
    then obtain k where k: "bitlen (n div 2) = Suc k" by (cases "bitlen (n div 2)") auto
    from ih k have "2 * 2 ^ k \<le> 2 * (n div 2)" by simp
    also have "\<dots> \<le> n" by linarith
    finally have lo: "2 ^ (bitlen n - 1) \<le> n" using b k by simp
    from ih(2) have "n div 2 + 1 \<le> 2 ^ bitlen (n div 2)" by linarith
    then have "2 * (n div 2) + 2 \<le> 2 * 2 ^ bitlen (n div 2)" by linarith
    moreover have "n < 2 * (n div 2) + 2" by linarith
    ultimately have "n < 2 ^ bitlen n" using b by simp
    with lo show ?thesis by simp
  qed
qed

lemma exponent_lower:
  assumes "0 < x"
  shows "pow2 (exponent x) \<le> x"
proof -
  obtain p q where pq: "quotient_of x = (p, q)" by (cases "quotient_of x") auto
  then have x: "x = of_int p / of_int q" and q: "0 < q"
    by (simp_all add: quotient_of_div quotient_of_denom_pos)
  with assms have p: "0 < p" by (simp add: zero_less_divide_iff)
  let ?e0 = "int (bitlen p) - int (bitlen q)"
  show ?thesis
  proof (cases "pow2 ?e0 \<le> x")
    case True
    then show ?thesis by (simp add: exponent_def pq)
  next
    case False
    then have e: "exponent x = ?e0 - 1" by (simp add: exponent_def pq)
    from bitlen_bounds[OF p] have lp: "(2::rat) ^ (bitlen p - 1) \<le> of_int p"
      by (metis of_int_le_iff of_int_numeral of_int_power)
    from bitlen_bounds[OF q] have "of_int q < (2::rat) ^ bitlen q"
      by (metis of_int_less_iff of_int_numeral of_int_power)
    then have uq: "of_int q \<le> (2::rat) ^ bitlen q" by simp
    have bp: "0 < bitlen p" using p by (subst bitlen.simps) simp
    have "?e0 - 1 = int (bitlen p - 1) + (- int (bitlen q))" using bp by simp
    then have "pow2 (?e0 - 1) = pow2 (int (bitlen p - 1)) * pow2 (- int (bitlen q))"
      by (simp only: pow2_add)
    also have "\<dots> = 2 ^ (bitlen p - 1) / 2 ^ bitlen q"
      by (simp add: pow2_nat) (simp add: pow2_def)
    also have "\<dots> \<le> of_int p / of_int q"
      using lp uq q p by (intro frac_le) auto
    finally show ?thesis using e x by simp
  qed
qed

lemma roundHalfEven_err: "\<bar>of_int (roundHalfEven m) - m\<bar> \<le> 1 / 2"
proof -
  have "of_int \<lfloor>m\<rfloor> \<le> m" "m < of_int \<lfloor>m\<rfloor> + 1" by linarith+
  then show ?thesis by (auto simp: roundHalfEven_def Let_def)
qed

lemma roundHalfEven_le: "m \<le> of_int k \<Longrightarrow> roundHalfEven m \<le> k"
proof -
  assume mk: "m \<le> of_int k"
  have f: "\<lfloor>m\<rfloor> \<le> k" using mk by (simp add: floor_le_iff)
  have "\<lfloor>m\<rfloor> + 1 \<le> k" if "m \<noteq> of_int \<lfloor>m\<rfloor>"
  proof -
    have "of_int \<lfloor>m\<rfloor> < m" using that of_int_floor_le[of m] by linarith
    with mk have "(of_int \<lfloor>m\<rfloor> :: rat) < of_int k" by linarith
    then show ?thesis by simp
  qed
  with f show ?thesis by (auto simp: roundHalfEven_def Let_def)
qed

lemma roundHalfEven_nonneg: "0 \<le> m \<Longrightarrow> 0 \<le> roundHalfEven m"
  by (auto simp: roundHalfEven_def Let_def)

lemma roundDouble_err:
  assumes "0 < x"
  shows "\<bar>roundDouble x - x\<bar> \<le> x / 2 ^ 53"
proof -
  let ?u = "pow2 (exponent x - 52)"
  have u: "0 < ?u" by (rule pow2_pos)
  have r: "roundDouble x = of_int (roundHalfEven (x / ?u)) * ?u"
    using assms by (simp add: roundDouble_def Let_def)
  have "roundDouble x - x = (of_int (roundHalfEven (x / ?u)) - x / ?u) * ?u"
    using u by (simp add: r left_diff_distrib)
  then have "\<bar>roundDouble x - x\<bar> = \<bar>of_int (roundHalfEven (x / ?u)) - x / ?u\<bar> * \<bar>?u\<bar>"
    by (simp only: abs_mult)
  also have "\<bar>?u\<bar> = ?u" using u by simp
  finally have "\<bar>roundDouble x - x\<bar> = \<bar>of_int (roundHalfEven (x / ?u)) - x / ?u\<bar> * ?u" .
  also have "\<bar>of_int (roundHalfEven (x / ?u)) - x / ?u\<bar> * ?u \<le> (1 / 2) * ?u"
    using roundHalfEven_err[of "x / ?u"] u by (intro mult_right_mono) auto
  also have "?u = pow2 (exponent x) * pow2 (- 52)"
    using pow2_add[of "exponent x" "- 52"] by simp
  also have "(1 / 2) * (pow2 (exponent x) * pow2 (- 52)) = pow2 (exponent x) / 2 ^ 53"
    by (simp add: pow2_def)
  also have "\<dots> \<le> x / 2 ^ 53"
    using exponent_lower[OF assms] by (simp add: divide_right_mono)
  finally show ?thesis .
qed

lemma roundDouble_nonneg: "0 \<le> x \<Longrightarrow> 0 \<le> roundDouble x"
proof -
  assume x: "0 \<le> x"
  then have "0 \<le> x / pow2 (exponent x - 52)" using pow2_pos[of "exponent x - 52"] by simp
  from roundHalfEven_nonneg[OF this]
  have "0 \<le> of_int (roundHalfEven (x / pow2 (exponent x - 52))) * pow2 (exponent x - 52)"
    using pow2_pos[of "exponent x - 52"] by simp
  then show ?thesis using x by (simp add: roundDouble_def Let_def)
qed

text \<open>A bound that is a multiple of the last place of \<open>x\<close> is kept by the rounding.\<close>

lemma roundDouble_le:
  assumes "0 < x" and "x \<le> c" and "c = of_int k * pow2 (exponent x - 52)"
  shows "roundDouble x \<le> c"
proof -
  let ?u = "pow2 (exponent x - 52)"
  have u: "0 < ?u" by (rule pow2_pos)
  have "x / ?u \<le> of_int k" using assms u by (simp add: pos_divide_le_eq)
  then have "roundHalfEven (x / ?u) \<le> k" by (rule roundHalfEven_le)
  then have "(of_int (roundHalfEven (x / ?u)) :: rat) \<le> of_int k" by simp
  then have "of_int (roundHalfEven (x / ?u)) * ?u \<le> of_int k * ?u"
    using u by (simp add: mult_right_mono)
  then show ?thesis using assms by (simp add: roundDouble_def Let_def)
qed

lemma exponent_less: "0 < x \<Longrightarrow> x < pow2 b \<Longrightarrow> exponent x < b"
  using exponent_lower[of x] by (intro pow2_less_imp) linarith

lemma roundDouble_le_1:
  assumes "0 < x" and "x \<le> 1"
  shows "roundDouble x \<le> 1"
proof -
  have "x < pow2 1" using assms by (simp add: pow2_def)
  from exponent_less[OF assms(1) this] have e: "exponent x \<le> 0" by simp
  then have "pow2 (52 - exponent x) = 2 ^ nat (52 - exponent x)" by (simp add: pow2_def)
  then have "of_int (2 ^ nat (52 - exponent x)) * pow2 (exponent x - 52)
      = pow2 (52 - exponent x) * pow2 (exponent x - 52)" by simp
  also have "\<dots> = 1" using pow2_add[of "52 - exponent x" "exponent x - 52"]
    by (simp add: pow2_def)
  finally have "1 = of_int (2 ^ nat (52 - exponent x)) * pow2 (exponent x - 52)" by simp
  from roundDouble_le[OF assms this] show ?thesis .
qed

lemma roundDouble_le_100:
  assumes "0 < x" and "x \<le> 100"
  shows "roundDouble x \<le> 100"
proof -
  have "x < pow2 7" using assms by (simp add: pow2_def)
  from exponent_less[OF assms(1) this] have e: "exponent x \<le> 6" by simp
  then have "pow2 (52 - exponent x) = 2 ^ nat (52 - exponent x)" by (simp add: pow2_def)
  then have "of_int (100 * 2 ^ nat (52 - exponent x)) * pow2 (exponent x - 52)
      = 100 * (pow2 (52 - exponent x) * pow2 (exponent x - 52))" by simp
  also have "\<dots> = 100" using pow2_add[of "52 - exponent x" "exponent x - 52"]
    by (simp add: pow2_def)
  finally have "100 = of_int (100 * 2 ^ nat (52 - exponent x)) * pow2 (exponent x - 52)" by simp
  from roundDouble_le[OF assms this] show ?thesis .
qed

lemma roundDouble_exact: "roundDouble 1 = 1 \<and> roundDouble 100 = 100"
  by code_simp

lemma percentage_bounds:
  assumes t: "0 < t" and st: "s \<le> t"
  shows "\<exists>x. times100 (jsDivide s t) = Finite x \<and> 0 \<le> x \<and> x \<le> 100
           \<and> \<bar>x - 100 * of_nat s / of_nat t\<bar> \<le> (100 * of_nat s / of_nat t) / 2 ^ 51
           \<and> (s = 0 \<longrightarrow> x = 0) \<and> (s = t \<longrightarrow> x = 100)"
proof -
  define a :: rat where "a = of_nat s / of_nat t"
  define y where "y = roundDouble a"
  define x where "x = roundDouble (y * 100)"
  define u :: rat where "u = 1 / 2 ^ 53"
  have u: "0 < u" "u \<le> 1" by (simp_all add: u_def)
  have a: "0 \<le> a" "a \<le> 1" using t st by (simp_all add: a_def)
  have val: "times100 (jsDivide s t) = Finite x"
    using t by (simp add: jsDivide_def x_def y_def a_def)
  have y0: "0 \<le> y" using a by (simp add: y_def roundDouble_nonneg)
  have y1: "y \<le> 1"
  proof (cases "a = 0")
    case True
    then show ?thesis by (simp add: y_def roundDouble_def)
  next
    case False
    with a have "0 < a" by simp
    from roundDouble_le_1[OF this a(2)] show ?thesis by (simp add: y_def)
  qed
  have ey: "\<bar>y - a\<bar> \<le> a * u"
  proof (cases "a = 0")
    case True
    then show ?thesis by (simp add: y_def roundDouble_def)
  next
    case False
    with a have "0 < a" by simp
    from roundDouble_err[OF this] show ?thesis by (simp add: y_def u_def)
  qed
  have x0: "0 \<le> x" using y0 by (simp add: x_def roundDouble_nonneg)
  have x100: "x \<le> 100"
  proof (cases "y = 0")
    case True
    then show ?thesis by (simp add: x_def roundDouble_def)
  next
    case False
    with y0 have "0 < y * 100" by simp
    moreover have "y * 100 \<le> 100" using y1 by simp
    ultimately show ?thesis unfolding x_def by (rule roundDouble_le_100)
  qed
  have ex: "\<bar>x - y * 100\<bar> \<le> (y * 100) * u"
  proof (cases "y = 0")
    case True
    then show ?thesis by (simp add: x_def roundDouble_def)
  next
    case False
    with y0 have "0 < y * 100" by simp
    from roundDouble_err[OF this] show ?thesis by (simp add: x_def u_def)
  qed
  have au: "0 \<le> a * u" using a u by simp
  from ey have "y \<le> a + a * u" by linarith
  then have "(y * 100) * u \<le> ((a + a * u) * 100) * u"
    using u by (intro mult_right_mono) auto
  also have "\<dots> = 100 * (a * u) + 100 * ((a * u) * u)" by (simp add: algebra_simps)
  also have "(a * u) * u \<le> (a * u) * 1" using au u by (intro mult_left_mono) auto
  finally have "(y * 100) * u \<le> 200 * (a * u)" by simp
  with ex have "\<bar>x - y * 100\<bar> \<le> 200 * (a * u)" by linarith
  moreover have "\<bar>x - 100 * a\<bar> \<le> \<bar>x - y * 100\<bar> + 100 * \<bar>y - a\<bar>"
  proof -
    have "x - 100 * a = (x - y * 100) + 100 * (y - a)" by simp
    then have "\<bar>x - 100 * a\<bar> \<le> \<bar>x - y * 100\<bar> + \<bar>100 * (y - a)\<bar>"
      by (simp only: abs_triangle_ineq)
    moreover have "\<bar>100 * (y - a)\<bar> = \<bar>100\<bar> * \<bar>y - a\<bar>" by (rule abs_mult)
    moreover have "\<bar>100 :: rat\<bar> = 100" by simp
    ultimately show ?thesis by (simp only:)
  qed
  ultimately have "\<bar>x - 100 * a\<bar> \<le> 300 * (a * u)" using ey by linarith
  also have "\<dots> \<le> 400 * (a * u)" using au by simp
  also have "\<dots> = (100 * a) / 2 ^ 51" by (simp add: u_def)
  finally have err: "\<bar>x - 100 * of_nat s / of_nat t\<bar> \<le> (100 * of_nat s / of_nat t) / 2 ^ 51"
    by (simp add: a_def)
  have zero: "x = 0" if "s = 0"
    using that by (simp add: x_def y_def a_def roundDouble_def)
  have full: "x = 100" if "s = t"
    using that t roundDouble_exact by (simp add: x_def y_def a_def)
  from val x0 x100 err zero full show ?thesis by blast
qed

lemma greaterEq_Finite:
  "greaterEq (Finite x) (Finite p) = (p \<le> x)"
  "\<not> greaterEq (Finite x) NaN"
  by simp_all

section \<open>The graded result\<close>

lemma grade_results:
  assumes "grade qz answers = Inr r"
  shows "res_totalQuestions r = length (questions qz)"
    and "length (res_results r) = length (questions qz)"
    and "map questionId (res_results r) = map q_id (questions qz)"
    and "map questionText (res_results r) = map q_questionText (questions qz)"
    and "res_score r = length (filter isCorrect (res_results r))"
    and "res_percentage r = times100 (jsDivide (res_score r) (res_totalQuestions r))"
    and "res_passed r = greaterEq (res_percentage r) (passPercentage qz)"
proof -
  from grade_unfold[OF assms] obtain st
    where st: "forEach (questions qz) (start qz answers) = Inr st" and r: "r = respond st"
    by blast
  from forEach_frame[OF st] have q: "the_quiz st = qz" by (simp add: start_def)
  from forEach_results[OF st] obtain es where es: "results st = es"
    "length es = length (questions qz)" "map questionId es = map q_id (questions qz)"
    "map questionText es = map q_questionText (questions qz)"
    "score st = length (filter isCorrect es)"
    by (auto simp: start_def)
  show "res_totalQuestions r = length (questions qz)"
    using r q by (simp add: respond_def Let_def)
  show "length (res_results r) = length (questions qz)"
    using r es by (simp add: respond_def Let_def)
  show "map questionId (res_results r) = map q_id (questions qz)"
    using r es by (simp add: respond_def Let_def)
  show "map questionText (res_results r) = map q_questionText (questions qz)"
    using r es by (simp add: respond_def Let_def)
  show "res_score r = length (filter isCorrect (res_results r))"
    using r es by (simp add: respond_def Let_def)
  show "res_percentage r = times100 (jsDivide (res_score r) (res_totalQuestions r))"
    using r by (simp add: respond_def Let_def)
  show "res_passed r = greaterEq (res_percentage r) (passPercentage qz)"
    using r q by (simp add: respond_def Let_def)
qed

lemma percentage_finite: "0 < t \<Longrightarrow> \<exists>x. times100 (jsDivide s t) = Finite x"
  by (simp add: jsDivide_def)

text \<open>Scenario D of the specification, and the same submission in the other order.\<close>

lemma sample_submissions:
  "isSubmission (JArray [answer ''q1'' (JString ''Paris'')])"
  "isSubmission (JArray [answer ''q2'' (JString ''seine''), answer ''q1'' (JString ''Lyon'')])"
  by (simp_all add: answer_def)

lemma scenario_D:
  "grade twoQuestions (JArray [answer ''q1'' (JString ''Paris'')]) =
     Inr \<lparr> res_score = 1, res_totalQuestions = 2, res_percentage = Finite 50,
           res_passed = False,
           res_results =
             [\<lparr> questionId = ''q1'', questionText = ''Capital of France?'',
                 userAnswer = JString ''Paris'', correctAnswer = ''Paris'', isCorrect = True \<rparr>,
              \<lparr> questionId = ''q2'', questionText = ''River of Paris?'',
                 userAnswer = JUndefined, correctAnswer = ''Seine'', isCorrect = False \<rparr>] \<rparr>"
  by code_simp

lemma scenario_D_reordered:
  "grade twoQuestions (JArray [answer ''q2'' (JString ''seine''), answer ''q1'' (JString ''Lyon'')]) =
     Inr \<lparr> res_score = 1, res_totalQuestions = 2, res_percentage = Finite 50,
           res_passed = False,
           res_results =
             [\<lparr> questionId = ''q1'', questionText = ''Capital of France?'',
                 userAnswer = JString ''Lyon'', correctAnswer = ''Paris'', isCorrect = False \<rparr>,
              \<lparr> questionId = ''q2'', questionText = ''River of Paris?'',
                 userAnswer = JString ''seine'', correctAnswer = ''Seine'', isCorrect = True \<rparr>] \<rparr>"
  by code_simp

lemma grade_noQuestions:
  "grade noQuestions (JArray []) =
     Inr \<lparr> res_score = 0, res_totalQuestions = 0, res_percentage = NaN,
           res_passed = False, res_results = [] \<rparr>"
  by code_simp

text \<open>
  The percentage is the rounded double, not the exact quotient: 29 of 50 gives
  \<open>57.99999999999999\<close>, which is below a pass mark of 58.
\<close>

lemma percentage_is_rounded:
  "times100 (jsDivide 29 50) = Finite (58 - 1 / 2 ^ 47)"
  by code_simp

lemma rounded_percentage_misses_mark:
  "\<not> greaterEq (times100 (jsDivide 29 50)) (Finite 58)"
  by (simp add: percentage_is_rounded)

text \<open>
  The exception is a real outcome: a number submitted for a short-answer question has no
  \<^verbatim>\<open>toLowerCase\<close>.
\<close>

lemma number_for_short_answer_throws:
  "grade twoQuestions (JArray [answer ''q2'' (JNumber (Finite 5))]) = Inl TypeError"
  by code_simp

lemma scenario_half_mark:
  "grade halfMark (JArray [answer ''q1'' (JString ''Paris'')]) =
     Inr \<lparr> res_score = 1, res_totalQuestions = 2, res_percentage = Finite 50,
           res_passed = True,
           res_results =
             [\<lparr> questionId = ''q1'', questionText = ''Capital of France?'',
                 userAnswer = JString ''Paris'', correctAnswer = ''Paris'', isCorrect = True \<rparr>,
              \<lparr> questionId = ''q2'', questionText = ''River of Paris?'',
                 userAnswer = JUndefined, correctAnswer = ''Seine'', isCorrect = False \<rparr>] \<rparr>"
  by code_simp

lemma scenario_none_right:
  "grade twoQuestions (JArray []) =
     Inr \<lparr> res_score = 0, res_totalQuestions = 2, res_percentage = Finite 0,
           res_passed = False,
           res_results =
             [\<lparr> questionId = ''q1'', questionText = ''Capital of France?'',
                 userAnswer = JUndefined, correctAnswer = ''Paris'', isCorrect = False \<rparr>,
              \<lparr> questionId = ''q2'', questionText = ''River of Paris?'',
                 userAnswer = JUndefined, correctAnswer = ''Seine'', isCorrect = False \<rparr>] \<rparr>"
  by code_simp

lemma scenario_all_right:
  "grade twoQuestions (JArray [answer ''q1'' (JString ''Paris''), answer ''q2'' (JString ''seine'')]) =
     Inr \<lparr> res_score = 2, res_totalQuestions = 2, res_percentage = Finite 100,
           res_passed = True,
           res_results =
             [\<lparr> questionId = ''q1'', questionText = ''Capital of France?'',
                 userAnswer = JString ''Paris'', correctAnswer = ''Paris'', isCorrect = True \<rparr>,
              \<lparr> questionId = ''q2'', questionText = ''River of Paris?'',
                 userAnswer = JString ''seine'', correctAnswer = ''Seine'', isCorrect = True \<rparr>] \<rparr>"
  by code_simp

lemma scenario_no_mark:
  "grade (twoQuestions \<lparr> passPercentage := NaN \<rparr>)
       (JArray [answer ''q1'' (JString ''Paris''), answer ''q2'' (JString ''seine'')]) =
     Inr \<lparr> res_score = 2, res_totalQuestions = 2, res_percentage = Finite 100,
           res_passed = False,
           res_results =
             [\<lparr> questionId = ''q1'', questionText = ''Capital of France?'',
                 userAnswer = JString ''Paris'', correctAnswer = ''Paris'', isCorrect = True \<rparr>,
              \<lparr> questionId = ''q2'', questionText = ''River of Paris?'',
                 userAnswer = JString ''seine'', correctAnswer = ''Seine'', isCorrect = True \<rparr>] \<rparr>"
  by code_simp

lemma forty_graded:
  "grade fortyQuestions (firstAnswered 23) = Inr fortyGraded"
  by code_simp

lemma forty_submission: "isSubmission (firstAnswered 23)"
  by (simp add: firstAnswered_def answer_def list_all_iff)

text \<open>
  Claim C3, as the specification states it, fails: the percentage is not the exact value
  of \<open>score / totalQuestions * 100\<close>. With 23 of 40 questions right the handler returns
  \<open>57.49999999999999\<close>, the double that the division and the multiplication round to,
  where the exact value is 57.5; against a pass mark of 57.5 the verdict is false, where
  the exact value reaches the mark.
\<close>

theorem percentage_is_not_the_exact_quotient:
  "questions fortyQuestions \<noteq> []
   \<and> isSubmission (firstAnswered 23)
   \<and> grade fortyQuestions (firstAnswered 23) = Inr fortyGraded
   \<and> res_score fortyGraded = 23
   \<and> res_totalQuestions fortyGraded = 40
   \<and> res_percentage fortyGraded = Finite (115 / 2 - 1 / 2 ^ 47)
   \<and> res_percentage fortyGraded \<noteq> Finite (23 / 40 * 100)
   \<and> res_passed fortyGraded = False
   \<and> greaterEq (Finite (23 / 40 * 100)) (passPercentage fortyQuestions)"
  using forty_graded forty_submission
  by (simp add: fortyQuestions_def fortyGraded_def)

text \<open>
  Claim C3, amended. For a quiz with at least one question every submission is graded, and
  every graded result has a score between 0 and the number of questions; its percentage
  is the double that \<^verbatim>\<open>score / totalQuestions * 100\<close> rounds to: a finite number between
  0 and 100, exactly 0 at score 0 and exactly 100 at a full score, and within a relative
  error of \<open>2^-51\<close> of the exact value; and the quiz is passed exactly when that double
  is at least the pass mark, never when the pass mark is not a number.
\<close>

theorem score_bounded_percentage_rounded_and_verdict:
  assumes "questions qz \<noteq> []"
  shows "(isSubmission answers \<longrightarrow> (\<exists>r. grade qz answers = Inr r))
       \<and> (\<forall>r. grade qz answers = Inr r \<longrightarrow>
              0 \<le> res_score r \<and> res_score r \<le> res_totalQuestions r
            \<and> res_totalQuestions r = length (questions qz)
            \<and> res_percentage r = times100 (jsDivide (res_score r) (res_totalQuestions r))
            \<and> (\<exists>x. res_percentage r = Finite x \<and> 0 \<le> x \<and> x \<le> 100
                  \<and> \<bar>x - 100 * of_nat (res_score r) / of_nat (res_totalQuestions r)\<bar>
                       \<le> (100 * of_nat (res_score r) / of_nat (res_totalQuestions r)) / 2 ^ 51
                  \<and> (res_score r = 0 \<longrightarrow> x = 0)
                  \<and> (res_score r = res_totalQuestions r \<longrightarrow> x = 100)
                  \<and> (\<forall>p. passPercentage qz = Finite p \<longrightarrow> (res_passed r \<longleftrightarrow> p \<le> x))
                  \<and> (passPercentage qz = NaN \<longrightarrow> \<not> res_passed r)))"
proof (intro conjI impI allI)
  assume "isSubmission answers"
  then show "\<exists>r. grade qz answers = Inr r" by (rule grade_returns)
next
  fix r assume g: "grade qz answers = Inr r"
  show "0 \<le> res_score r" by simp
  have "res_score r \<le> length (res_results r)"
    using grade_results(5)[OF g] by simp
  then show le: "res_score r \<le> res_totalQuestions r"
    using grade_results(1,2)[OF g] by simp
  show "res_totalQuestions r = length (questions qz)" by (rule grade_results(1)[OF g])
  show p: "res_percentage r = times100 (jsDivide (res_score r) (res_totalQuestions r))"
    by (rule grade_results(6)[OF g])
  from assms grade_results(1)[OF g] have "0 < res_totalQuestions r" by simp
  from percentage_bounds[OF this le] obtain x
    where x: "times100 (jsDivide (res_score r) (res_totalQuestions r)) = Finite x \<and> 0 \<le> x
      \<and> x \<le> 100
      \<and> \<bar>x - 100 * of_nat (res_score r) / of_nat (res_totalQuestions r)\<bar>
         \<le> (100 * of_nat (res_score r) / of_nat (res_totalQuestions r)) / 2 ^ 51
      \<and> (res_score r = 0 \<longrightarrow> x = 0) \<and> (res_score r = res_totalQuestions r \<longrightarrow> x = 100)"
    ..
  from p x have px: "res_percentage r = Finite x" by simp
  have v: "res_passed r = greaterEq (Finite x) (passPercentage qz)"
    using grade_results(7)[OF g] px by simp
  have v1: "\<forall>p. passPercentage qz = Finite p \<longrightarrow> (res_passed r \<longleftrightarrow> p \<le> x)"
    using v by (simp add: greaterEq_Finite)
  have v2: "passPercentage qz = NaN \<longrightarrow> \<not> res_passed r"
    using v by (simp add: greaterEq_Finite)
  from px x v1 v2
  have "res_percentage r = Finite x \<and> 0 \<le> x \<and> x \<le> 100
          \<and> \<bar>x - 100 * of_nat (res_score r) / of_nat (res_totalQuestions r)\<bar>
               \<le> (100 * of_nat (res_score r) / of_nat (res_totalQuestions r)) / 2 ^ 51
          \<and> (res_score r = 0 \<longrightarrow> x = 0)
          \<and> (res_score r = res_totalQuestions r \<longrightarrow> x = 100)
          \<and> (\<forall>p. passPercentage qz = Finite p \<longrightarrow> (res_passed r \<longleftrightarrow> p \<le> x))
          \<and> (passPercentage qz = NaN \<longrightarrow> \<not> res_passed r)"
    by simp
  then show "\<exists>x. res_percentage r = Finite x \<and> 0 \<le> x \<and> x \<le> 100
          \<and> \<bar>x - 100 * of_nat (res_score r) / of_nat (res_totalQuestions r)\<bar>
               \<le> (100 * of_nat (res_score r) / of_nat (res_totalQuestions r)) / 2 ^ 51
          \<and> (res_score r = 0 \<longrightarrow> x = 0)
          \<and> (res_score r = res_totalQuestions r \<longrightarrow> x = 100)
          \<and> (\<forall>p. passPercentage qz = Finite p \<longrightarrow> (res_passed r \<longleftrightarrow> p \<le> x))
          \<and> (passPercentage qz = NaN \<longrightarrow> \<not> res_passed r)"
    by (rule exI)
qed

theorem score_bounded_percentage_rounded_and_verdict_witness:
  "questions halfMark \<noteq> [] \<and> questions twoQuestions \<noteq> []
   \<and> questions (twoQuestions \<lparr> passPercentage := NaN \<rparr>) \<noteq> []
   \<and> isSubmission (JArray [answer ''q1'' (JString ''Paris'')])
   \<and> (\<exists>r. grade halfMark (JArray [answer ''q1'' (JString ''Paris'')]) = Inr r
          \<and> res_score r = 1 \<and> res_totalQuestions r = 2
          \<and> res_percentage r = Finite 50
          \<and> passPercentage halfMark = Finite 50
          \<and> res_passed r = True \<and> (res_passed r \<longleftrightarrow> (50 :: rat) \<le> 50))
   \<and> (\<exists>r. grade twoQuestions (JArray [answer ''q1'' (JString ''Paris'')]) = Inr r
          \<and> res_score r = 1 \<and> res_totalQuestions r = 2
          \<and> res_percentage r = Finite 50
          \<and> passPercentage twoQuestions = Finite 60
          \<and> res_passed r = False \<and> (res_passed r \<longleftrightarrow> (60 :: rat) \<le> 50))
   \<and> (\<exists>r. grade twoQuestions (JArray []) = Inr r
          \<and> res_score r = 0 \<and> res_percentage r = Finite 0)
   \<and> (\<exists>r. grade twoQuestions
             (JArray [answer ''q1'' (JString ''Paris''), answer ''q2'' (JString ''seine'')]) = Inr r
          \<and> res_score r = res_totalQuestions r \<and> res_percentage r = Finite 100)
   \<and> (\<exists>r. grade (twoQuestions \<lparr> passPercentage := NaN \<rparr>)
             (JArray [answer ''q1'' (JString ''Paris''), answer ''q2'' (JString ''seine'')]) = Inr r
          \<and> passPercentage (twoQuestions \<lparr> passPercentage := NaN \<rparr>) = NaN
          \<and> \<not> res_passed r)"
proof -
  let ?a = "JArray [answer ''q1'' (JString ''Paris'')]"
  let ?b = "JArray [answer ''q1'' (JString ''Paris''), answer ''q2'' (JString ''seine'')]"
  let ?n = "twoQuestions \<lparr> passPercentage := NaN \<rparr>"
  have q: "questions halfMark \<noteq> []" "questions twoQuestions \<noteq> []" "questions ?n \<noteq> []"
    by (simp_all add: halfMark_def twoQuestions_def)
  have m: "passPercentage halfMark = Finite 50" "passPercentage twoQuestions = Finite 60"
      "passPercentage ?n = NaN"
    by (simp_all add: halfMark_def twoQuestions_def)
  obtain r where g: "grade halfMark ?a = Inr r" and v: "res_score r = 1"
      "res_totalQuestions r = 2" "res_percentage r = Finite 50" "res_passed r = True"
    using scenario_half_mark by simp
  obtain r' where g': "grade twoQuestions ?a = Inr r'" and v': "res_score r' = 1"
      "res_totalQuestions r' = 2" "res_percentage r' = Finite 50" "res_passed r' = False"
    using scenario_D by simp
  obtain r0 where g0: "grade twoQuestions (JArray []) = Inr r0" and v0: "res_score r0 = 0"
    using scenario_none_right by simp
  obtain r2 where g2: "grade twoQuestions ?b = Inr r2"
      and v2: "res_score r2 = res_totalQuestions r2"
    using scenario_all_right by simp
  obtain rn where gn: "grade ?n ?b = Inr rn"
    using scenario_no_mark by simp
  from score_bounded_percentage_rounded_and_verdict[OF q(1), of ?a] g v(3) m(1)
  have h: "res_passed r \<longleftrightarrow> (50 :: rat) \<le> 50" by auto
  from score_bounded_percentage_rounded_and_verdict[OF q(2), of ?a] g' v'(3) m(2)
  have h': "res_passed r' \<longleftrightarrow> (60 :: rat) \<le> 50" by auto
  from score_bounded_percentage_rounded_and_verdict[OF q(2), of "JArray []"] g0 v0
  have h0: "res_percentage r0 = Finite 0" by auto
  from score_bounded_percentage_rounded_and_verdict[OF q(2), of ?b] g2 v2
  have h2: "res_percentage r2 = Finite 100" by auto
  from score_bounded_percentage_rounded_and_verdict[OF q(3), of ?b] gn m(3)
  have hn: "\<not> res_passed rn" by auto
  from q m sample_submissions(1) g v h g' v' h' g0 v0 h0 g2 v2 h2 gn hn show ?thesis by blast
qed

text \<open>
  Claim C4, as the specification states it, fails: with no question the quotient is
  \<^verbatim>\<open>0 / 0\<close>, which is not a number and not 0. No exception is raised, the score is 0
  and the verdict is false, since every comparison with not-a-number is false.
\<close>

theorem no_questions_percentage_is_not_zero:
  "questions noQuestions = []
   \<and> grade noQuestions (JArray []) =
       Inr \<lparr> res_score = 0, res_totalQuestions = 0, res_percentage = NaN,
             res_passed = False, res_results = [] \<rparr>
   \<and> res_percentage \<lparr> res_score = 0, res_totalQuestions = 0, res_percentage = NaN,
                      res_passed = False, res_results = [] \<rparr> \<noteq> Finite 0"
  using grade_noQuestions by (simp add: noQuestions_def)

text \<open>
  Claim C4, amended. For a quiz with no question and any value of \<^verbatim>\<open>answers\<close>, grading
  raises no exception and returns score 0, no entry, the percentage not-a-number and the
  verdict false.
\<close>

theorem no_questions_percentage_is_NaN:
  assumes "questions qz = []"
  shows "grade qz answers =
           Inr \<lparr> res_score = 0, res_totalQuestions = 0, res_percentage = NaN,
                 res_passed = False, res_results = [] \<rparr>"
  using assms by (simp add: grade_def start_def respond_def jsDivide_def)

theorem no_questions_percentage_is_NaN_witness:
  "questions noQuestions = []
   \<and> grade noQuestions JUndefined =
       Inr \<lparr> res_score = 0, res_totalQuestions = 0, res_percentage = NaN,
             res_passed = False, res_results = [] \<rparr>"
  using no_questions_percentage_is_NaN [of noQuestions JUndefined]
  by (simp add: noQuestions_def)

text \<open>
  Claim C5. Every submission is graded, and the results of a graded submission are as many
  as the questions of the quiz and follow their order: the entries carry the ids and the
  texts of the questions, one by one, wherever the answers stand in the submission.
\<close>

theorem results_follow_question_order:
  "(isSubmission answers \<longrightarrow> (\<exists>r. grade qz answers = Inr r))
   \<and> (\<forall>r. grade qz answers = Inr r \<longrightarrow>
          length (res_results r) = res_totalQuestions r
        \<and> res_totalQuestions r = length (questions qz)
        \<and> map questionId (res_results r) = map q_id (questions qz)
        \<and> map questionText (res_results r) = map q_questionText (questions qz))"
  using grade_returns[of answers qz] grade_results(1,2,3,4)[of qz answers]
  by auto

theorem results_follow_question_order_witness:
  "isSubmission (JArray [answer ''q2'' (JString ''seine''), answer ''q1'' (JString ''Lyon'')])
   \<and> (\<exists>r. grade twoQuestions
             (JArray [answer ''q2'' (JString ''seine''), answer ''q1'' (JString ''Lyon'')]) = Inr r
          \<and> length (res_results r) = 2
          \<and> map questionId (res_results r) = [''q1'', ''q2''])"
  using results_follow_question_order
          [of "JArray [answer ''q2'' (JString ''seine''), answer ''q1'' (JString ''Lyon'')]"
              twoQuestions]
        sample_submissions(2) scenario_D_reordered
  by (auto simp: twoQuestions_def capital_def river_def)

text \<open>
  Claim C9. The score of a graded submission is the number of entries of its results that
  are marked correct.
\<close>

theorem score_counts_correct_entries:
  "(isSubmission answers \<longrightarrow> (\<exists>r. grade qz answers = Inr r))
   \<and> (\<forall>r. grade qz answers = Inr r \<longrightarrow>
          res_score r = length (filter isCorrect (res_results r)))"
  using grade_returns[of answers qz] grade_results(5)[of qz answers]
  by auto

theorem score_counts_correct_entries_witness:
  "isSubmission (JArray [answer ''q2'' (JString ''seine''), answer ''q1'' (JString ''Lyon'')])
   \<and> (\<exists>r. grade twoQuestions
             (JArray [answer ''q2'' (JString ''seine''), answer ''q1'' (JString ''Lyon'')]) = Inr r
          \<and> res_score r = 1
          \<and> length (filter isCorrect (res_results r)) = 1)"
  using score_counts_correct_entries
          [of "JArray [answer ''q2'' (JString ''seine''), answer ''q1'' (JString ''Lyon'')]"
              twoQuestions]
        sample_submissions(2) scenario_D_reordered
  by auto

end
